theory Spec2Isabelle
  imports Complex_Main "HOL-Library.Word" "HOL-Library.Log_Nat"
begin

unbundle bit_operations_syntax

section \<open>Numbers and typed arrays\<close>

text \<open>
  The component (\<^verbatim>\<open>App.tsx\<close>, the second part of \<^verbatim>\<open>src/vite.config.ts\<close>) handles three
  kinds of numbers: the grid size, an integer that starts at 4 and is only ever assigned
  \<^verbatim>\<open>Math.min(gridSize + 1, 2 ** 9)\<close> or \<^verbatim>\<open>2\<close>, modelled as \<open>int\<close> (all values stay far
  below \<open>2 ^ 53\<close>, where the arithmetic of JavaScript numbers is exact); decimal literals
  such as \<^verbatim>\<open>-0.8\<close>, modelled as the rational value of the binary64 number the literal
  denotes; and the elements of a \<^verbatim>\<open>Float32Array\<close>, modelled as the 32-bit patterns the
  array stores (IEEE 754 binary32, round to nearest, ties to even).
\<close>

type_synonym byte = "8 word"

definition pow2 :: "int \<Rightarrow> rat" where
  "pow2 k = (if 0 \<le> k then 2 ^ nat k else 1 / 2 ^ nat (- k))"

text \<open>\<open>ilog2 q\<close> is the binary exponent of a positive rational: \<open>2 ^ e \<le> q < 2 ^ (e + 1)\<close>.\<close>

definition ilog2 :: "rat \<Rightarrow> int" where
  "ilog2 q =
     (let k = bitlen (fst (quotient_of q)) - bitlen (snd (quotient_of q))
      in if pow2 k \<le> q then k else k - 1)"

definition round_half_even :: "rat \<Rightarrow> int" where
  "round_half_even x =
     (let f = \<lfloor>x\<rfloor>; r = x - of_int f
      in if r < 1 / 2 then f
         else if 1 / 2 < r then f + 1
         else if even f then f else f + 1)"

text \<open>
  The value of a decimal literal of the source: the nearest binary64 number (53 significant
  bits, gradual underflow below \<open>2 ^ -1022\<close>). No literal of the source is near the
  overflow threshold, so infinities are not represented.
\<close>

definition float64 :: "rat \<Rightarrow> rat" where
  "float64 q =
     (if q = 0 then 0
      else let a = \<bar>q\<bar>; e = max (ilog2 a) (- 1022)
           in sgn q * of_int (round_half_even (a * pow2 (52 - e))) * pow2 (e - 52))"

text \<open>
  Storing a number into a \<^verbatim>\<open>Float32Array\<close> rounds it to binary32. The result is the bit
  pattern: sign in bit 31, biased exponent in bits 30 to 23, fraction in bits 22 to 0.
  With \<open>m\<close> the rounded 24-bit significand, \<open>(e + 126) * 2 ^ 23 + m\<close> is the exponent
  and fraction field in one sum: a significand rounded up to \<open>2 ^ 24\<close> carries into the
  exponent, a subnormal has \<open>e = -126\<close> and \<open>m < 2 ^ 23\<close>, and everything at or above the
  pattern of infinity is infinity.
\<close>

definition float32_bits :: "rat \<Rightarrow> 32 word" where
  "float32_bits q =
     (if q = 0 then 0
      else let a = \<bar>q\<bar>; e = max (ilog2 a) (- 126);
               m = round_half_even (a * pow2 (23 - e));
               b = min ((e + 126) * 2 ^ 23 + m) (255 * 2 ^ 23)
           in word_of_int ((if q < 0 then 2 ^ 31 else 0) + b))"

text \<open>
  Reading an element back: the value of a bit pattern, \<open>None\<close> for an infinity or a NaN.
\<close>

definition float32_value :: "32 word \<Rightarrow> rat option" where
  "float32_value w =
     (let E = unat (take_bit 8 (drop_bit 23 w)); M = unat (take_bit 23 w);
          s = (if bit w 31 then - 1 else 1)
      in if E = 255 then None
         else if E = 0 then Some (s * of_nat M * pow2 (- 149))
         else Some (s * of_nat (2 ^ 23 + M) * pow2 (int E - 150)))"

type_synonym float32array = "32 word list"

definition Float32Array :: "rat list \<Rightarrow> float32array" where
  "Float32Array xs = map float32_bits xs"

definition byteLength :: "float32array \<Rightarrow> nat" where
  "byteLength a = 4 * length a"

text \<open>The bytes of an array as the device sees them: four bytes per element, low byte first.\<close>

definition float32_bytes :: "32 word \<Rightarrow> byte list" where
  "float32_bytes w =
     [ucast w, ucast (drop_bit 8 w), ucast (drop_bit 16 w), ucast (drop_bit 24 w)]"

definition array_bytes :: "float32array \<Rightarrow> byte list" where
  "array_bytes a = concat (map float32_bytes a)"

text \<open>Decoding the bytes of a buffer as binary32 elements, the way the shader reads them.\<close>

fun bytes_array :: "byte list \<Rightarrow> float32array" where
  "bytes_array (b0 # b1 # b2 # b3 # bs) =
     (ucast b0 OR push_bit 8 (ucast b1) OR push_bit 16 (ucast b2) OR push_bit 24 (ucast b3))
       # bytes_array bs"
| "bytes_array _ = []"

section \<open>The graphics device\<close>

text \<open>
  The WebGPU objects the component touches. A device is the state that the calls on it
  change: the buffers it has created (a buffer's handle is its index), the log of
  \<^verbatim>\<open>queue.writeBuffer\<close> calls, and the command buffers submitted to its queue. Shader
  modules, pipelines, bind groups and command encoders are plain values.
\<close>

type_synonym buffer_id = nat

datatype buffer_usage = VERTEX | UNIFORM | COPY_DST

record gpu_buffer =
  buf_label :: string
  buf_size :: nat
  buf_usage :: "buffer_usage list"
  buf_data :: "byte list"

datatype texture_format = bgra8unorm | rgba8unorm

record canvas_context =
  configuration :: "texture_format option"

record shader_module =
  sm_label :: string
  sm_code :: string

record vertex_attribute =
  attr_format :: string
  attr_offset :: nat
  shaderLocation :: nat

record vertex_buffer_layout =
  arrayStride :: nat
  attributes :: "vertex_attribute list"

record render_pipeline =
  pl_label :: string
  pl_layout :: string
  vertex_module :: shader_module
  vertex_entryPoint :: string
  vertex_buffers :: "vertex_buffer_layout list"
  fragment_module :: shader_module
  fragment_entryPoint :: string
  fragment_targets :: "texture_format list"

datatype bind_group_layout = BindGroupLayout render_pipeline nat

record bind_group =
  bg_label :: string
  bg_layout :: bind_group_layout
  bg_entries :: "(nat \<times> buffer_id) list"

datatype load_op = load_clear | load_load

datatype store_op = store_store | store_discard

record color_attachment =
  att_view :: canvas_context
  loadOp :: load_op
  clearValue :: "rat \<times> rat \<times> rat \<times> rat"
  storeOp :: store_op

datatype command =
    BeginRenderPass "color_attachment list"
  | SetPipeline render_pipeline
  | SetVertexBuffer nat buffer_id
  | SetBindGroup nat bind_group
  | Draw rat int
  | End

type_synonym command_buffer = "command list"

record gpu_device =
  buffers :: "gpu_buffer list"
  writes :: "(buffer_id \<times> nat \<times> byte list) list"
  submitted :: "command_buffer list"

definition new_device :: gpu_device where
  "new_device = \<lparr>buffers = [], writes = [], submitted = []\<rparr>"

definition createBuffer ::
  "string \<Rightarrow> nat \<Rightarrow> buffer_usage list \<Rightarrow> gpu_device \<Rightarrow> buffer_id \<times> gpu_device" where
  "createBuffer l n u d =
     (length (buffers d),
      d\<lparr>buffers := buffers d @
           [\<lparr>buf_label = l, buf_size = n, buf_usage = u, buf_data = replicate n 0\<rparr>]\<rparr>)"

text \<open>
  \<^verbatim>\<open>queue.writeBuffer(buffer, offset, data)\<close> copies the bytes of \<open>data\<close> into the buffer
  at \<open>offset\<close>. A write that does not fit the buffer is refused by the device and changes
  nothing; the component only ever writes a whole array into a buffer of the array's size.
\<close>

definition writeBuffer :: "buffer_id \<Rightarrow> nat \<Rightarrow> byte list \<Rightarrow> gpu_device \<Rightarrow> gpu_device" where
  "writeBuffer b off bs d =
     (if b < length (buffers d) \<and> off + length bs \<le> buf_size (buffers d ! b)
      then let old = buffers d ! b;
               new = old\<lparr>buf_data := take off (buf_data old) @ bs
                                          @ drop (off + length bs) (buf_data old)\<rparr>
           in d\<lparr>buffers := (buffers d)[b := new], writes := writes d @ [(b, off, bs)]\<rparr>
      else d)"

definition submit :: "command_buffer list \<Rightarrow> gpu_device \<Rightarrow> gpu_device" where
  "submit cbs d = d\<lparr>submitted := submitted d @ cbs\<rparr>"

definition configure :: "texture_format \<Rightarrow> canvas_context \<Rightarrow> canvas_context" where
  "configure f c = c\<lparr>configuration := Some f\<rparr>"

text \<open>The draw calls a device has been given so far, as (vertex count, instance count).\<close>

fun draw_call :: "command \<Rightarrow> (rat \<times> int) list" where
  "draw_call (Draw v i) = [(v, i)]"
| "draw_call _ = []"

definition draw_calls :: "gpu_device \<Rightarrow> (rat \<times> int) list" where
  "draw_calls d = concat (map draw_call (concat (submitted d)))"

section \<open>The draw function\<close>

text \<open>
  \<^verbatim>\<open>draw(device, context, pipeline, vertexBuffer, vertices, GRID_SIZE)\<close>. It has no
  \<^verbatim>\<open>await\<close>, so a call runs to its end at once; its effect is the new state of the
  device. The vertex count is the quotient \<^verbatim>\<open>vertices.length / 2\<close> as the source
  computes it, a number that is not rounded here.
\<close>

definition draw ::
  "gpu_device \<Rightarrow> canvas_context \<Rightarrow> render_pipeline \<Rightarrow> buffer_id \<Rightarrow> float32array \<Rightarrow> int
     \<Rightarrow> gpu_device" where
  "draw device context pipeline vertexBuffer vertices GRID_SIZE =
     (let uniformArray = Float32Array [of_int GRID_SIZE, of_int GRID_SIZE];
          (uniformBuffer, device) =
             createBuffer ''Grid Uniforms'' (byteLength uniformArray) [UNIFORM, COPY_DST] device;
          device = writeBuffer uniformBuffer 0 (array_bytes uniformArray) device;
          bindGroup = \<lparr>bg_label = ''Cell renderer bind group'',
                       bg_layout = BindGroupLayout pipeline 0,
                       bg_entries = [(0, uniformBuffer)]\<rparr>;
          pass = [BeginRenderPass
                    [\<lparr>att_view = context, loadOp = load_clear,
                      clearValue = (0, 0, float64 (4 / 10), 1), storeOp = store_store\<rparr>],
                  SetPipeline pipeline,
                  SetVertexBuffer 0 vertexBuffer,
                  SetBindGroup 0 bindGroup,
                  Draw (of_nat (length vertices) / 2) (GRID_SIZE * GRID_SIZE),
                  End]
      in submit [pass] device)"

section \<open>The component\<close>

text \<open>
  The state of \<^verbatim>\<open>App\<close>: the grid size (\<^verbatim>\<open>useState(4)\<close>), the five references that setup
  fills, and how far the asynchronous \<^verbatim>\<open>setup\<close> has come. The device reference holds
  the device itself, so a call on the device is an update of that reference.

  \<^verbatim>\<open>setup\<close> is an async function with two \<^verbatim>\<open>await\<close>s. An async function runs up to
  its first \<^verbatim>\<open>await\<close> when it is called and continues in a later turn of the event loop,
  so it is modelled by its three segments, and the turn in which a pending promise
  resolves is an event like a timer tick or a click.
\<close>

datatype setup_stage = NotCalled | AwaitAdapter | AwaitDevice | Returned

record app =
  gridSize :: int
  deviceRef :: "gpu_device option"
  pipelineRef :: "render_pipeline option"
  contextRef :: "canvas_context option"
  vertexBufferRef :: "buffer_id option"
  verticesRef :: "float32array option"
  setup_pc :: setup_stage

text \<open>
  What the browser provides: whether \<^verbatim>\<open>requestAdapter()\<close> resolves to an adapter, whether
  \<^verbatim>\<open>canvasRef.current\<close> holds the canvas element, whether \<^verbatim>\<open>getContext('webgpu')\<close> returns
  a context, the preferred canvas format, and the text of \<^verbatim>\<open>shader.wgsl\<close>.
\<close>

record host =
  has_adapter :: bool
  has_canvas :: bool
  has_context :: bool
  preferred_format :: texture_format
  shaderCode :: string

definition initial :: app where
  "initial = \<lparr>gridSize = 4, deviceRef = None, pipelineRef = None, contextRef = None,
              vertexBufferRef = None, verticesRef = None, setup_pc = NotCalled\<rparr>"

definition quad :: "rat list" where
  "quad = [- float64 (8 / 10), - float64 (8 / 10), float64 (8 / 10),
           - float64 (8 / 10), float64 (8 / 10), float64 (8 / 10),
           - float64 (8 / 10), - float64 (8 / 10), float64 (8 / 10),
           float64 (8 / 10), - float64 (8 / 10), float64 (8 / 10)]"

text \<open>Calling \<^verbatim>\<open>setup()\<close>: the adapter is requested and the function waits.\<close>

definition setup_call :: "app \<Rightarrow> app" where
  "setup_call a = a\<lparr>setup_pc := AwaitAdapter\<rparr>"

text \<open>After \<^verbatim>\<open>await navigator.gpu.requestAdapter()\<close>.\<close>

definition setup_adapter :: "host \<Rightarrow> app \<Rightarrow> app" where
  "setup_adapter h a =
     (if \<not> has_adapter h then a\<lparr>setup_pc := Returned\<rparr>
      else a\<lparr>setup_pc := AwaitDevice\<rparr>)"

text \<open>After \<^verbatim>\<open>await adapter.requestDevice()\<close>, to the end of the function.\<close>

definition setup_device :: "host \<Rightarrow> app \<Rightarrow> app" where
  "setup_device h a =
     (let a = a\<lparr>deviceRef := Some new_device\<rparr>
      in if \<not> has_canvas h then a\<lparr>setup_pc := Returned\<rparr>
         else if \<not> has_context h then a\<lparr>setup_pc := Returned\<rparr>
         else
           let context = \<lparr>configuration = None\<rparr>;
               a = a\<lparr>contextRef := Some context\<rparr>;
               canvasFormat = preferred_format h;
               a = a\<lparr>contextRef := Some (configure canvasFormat (the (contextRef a)))\<rparr>;
               a = a\<lparr>verticesRef := Some (Float32Array quad)\<rparr>;
               (vertexBuffer, device) =
                  createBuffer ''Cell vertices'' (byteLength (the (verticesRef a)))
                    [VERTEX, COPY_DST] (the (deviceRef a));
               a = a\<lparr>vertexBufferRef := Some vertexBuffer, deviceRef := Some device\<rparr>;
               a = a\<lparr>deviceRef := Some (writeBuffer (the (vertexBufferRef a)) 0
                                           (array_bytes (the (verticesRef a)))
                                           (the (deviceRef a)))\<rparr>;
               vertexBufferLayout =
                  \<lparr>arrayStride = 8,
                   attributes = [\<lparr>attr_format = ''float32x2'', attr_offset = 0,
                                  shaderLocation = 0\<rparr>]\<rparr>;
               shaderModule = \<lparr>sm_label = ''Cell shader'', sm_code = shaderCode h\<rparr>;
               a = a\<lparr>pipelineRef := Some
                     \<lparr>pl_label = ''Cell pipeline'', pl_layout = ''auto'',
                      vertex_module = shaderModule, vertex_entryPoint = ''vertexMain'',
                      vertex_buffers = [vertexBufferLayout],
                      fragment_module = shaderModule, fragment_entryPoint = ''fragmentMain'',
                      fragment_targets = [canvasFormat]\<rparr>\<rparr>
           in a\<lparr>setup_pc := Returned\<rparr>)"

text \<open>The turn in which the promise that \<^verbatim>\<open>setup\<close> waits for resolves.\<close>

definition setup_resume :: "host \<Rightarrow> app \<Rightarrow> app" where
  "setup_resume h a =
     (case setup_pc a of
        AwaitAdapter \<Rightarrow> setup_adapter h a
      | AwaitDevice \<Rightarrow> setup_device h a
      | _ \<Rightarrow> a)"

text \<open>The effect with dependency \<^verbatim>\<open>[gridSize]\<close>.\<close>

definition drawEffect :: "app \<Rightarrow> app" where
  "drawEffect a =
     (if deviceRef a = None \<or> contextRef a = None \<or> pipelineRef a = None
         \<or> vertexBufferRef a = None \<or> verticesRef a = None
      then a
      else a\<lparr>deviceRef := Some (draw (the (deviceRef a)) (the (contextRef a))
                                    (the (pipelineRef a)) (the (vertexBufferRef a))
                                    (the (verticesRef a)) (gridSize a))\<rparr>)"

text \<open>
  \<^verbatim>\<open>setGridSize\<close>, the setter of the \<^verbatim>\<open>useState\<close> hook: a value equal to the current one
  renders nothing again; a new value is rendered and the effects that depend on it run.
\<close>

definition setGridSize :: "int \<Rightarrow> app \<Rightarrow> app" where
  "setGridSize v a = (if v = gridSize a then a else drawEffect (a\<lparr>gridSize := v\<rparr>))"

text \<open>
  Modelled from the spec: \<^verbatim>\<open>useInterval\<close> (imported from \<^verbatim>\<open>@/utils/useSetInterval\<close>, which
  is not among the sources) is a fixed-period timer that runs the callback of the latest
  render at each tick. The callback itself is the source's.
\<close>

definition timer_callback :: "app \<Rightarrow> app" where
  "timer_callback a = setGridSize (min (gridSize a + 1) (2 ^ 9)) a"

definition clickHandler :: "app \<Rightarrow> app" where
  "clickHandler a = setGridSize 2 a"


text \<open>
  Mounting runs the two effects in their order: the first calls \<^verbatim>\<open>setup()\<close>, the second
  is the draw effect for the initial grid size.
\<close>

definition mount :: app where
  "mount = drawEffect (setup_call initial)"

datatype event = Tick | Click | Resolve

fun step :: "host \<Rightarrow> app \<Rightarrow> event \<Rightarrow> app" where
  "step h a Tick = timer_callback a"
| "step h a Click = clickHandler a"
| "step h a Resolve = setup_resume h a"

definition run :: "host \<Rightarrow> event list \<Rightarrow> app" where
  "run h evs = foldl (step h) mount evs"

text \<open>The frames drawn so far in a session: the draw calls given to its device.\<close>

definition frames :: "app \<Rightarrow> (rat \<times> int) list" where
  "frames a = (case deviceRef a of None \<Rightarrow> [] | Some d \<Rightarrow> draw_calls d)"

text \<open>The buffer writes of a session so far: the writes given to the queue of its device.\<close>

definition session_writes :: "app \<Rightarrow> (buffer_id \<times> nat \<times> byte list) list" where
  "session_writes a = (case deviceRef a of None \<Rightarrow> [] | Some d \<Rightarrow> writes d)"

text \<open>A browser that provides everything, for concrete runs.\<close>

definition full_host :: host where
  "full_host = \<lparr>has_adapter = True, has_canvas = True, has_context = True,
                 preferred_format = bgra8unorm, shaderCode = ''''\<rparr>"

text \<open>Browsers that lack an adapter, the canvas element, or its context.\<close>

definition no_adapter_host :: host where
  "no_adapter_host = full_host\<lparr>has_adapter := False\<rparr>"

definition no_canvas_host :: host where
  "no_canvas_host = full_host\<lparr>has_canvas := False\<rparr>"

definition no_context_host :: host where
  "no_context_host = full_host\<lparr>has_context := False\<rparr>"

section \<open>Invariants of a session\<close>

text \<open>No reference has been set: the state of the references before setup sets any.\<close>

definition unset :: "app \<Rightarrow> bool" where
  "unset a \<longleftrightarrow> deviceRef a = None \<and> contextRef a = None \<and> pipelineRef a = None
     \<and> vertexBufferRef a = None \<and> verticesRef a = None"

text \<open>The guard of the draw effect passes: all five references are set.\<close>

definition ready :: "app \<Rightarrow> bool" where
  "ready a \<longleftrightarrow> deviceRef a \<noteq> None \<and> contextRef a \<noteq> None \<and> pipelineRef a \<noteq> None
     \<and> vertexBufferRef a \<noteq> None \<and> verticesRef a \<noteq> None"

text \<open>The pipeline, the vertex buffer and the device that a completed setup leaves.\<close>

definition cell_pipeline :: "host \<Rightarrow> render_pipeline" where
  "cell_pipeline h =
     \<lparr>pl_label = ''Cell pipeline'', pl_layout = ''auto'',
      vertex_module = \<lparr>sm_label = ''Cell shader'', sm_code = shaderCode h\<rparr>,
      vertex_entryPoint = ''vertexMain'',
      vertex_buffers = [\<lparr>arrayStride = 8,
                         attributes = [\<lparr>attr_format = ''float32x2'', attr_offset = 0,
                                        shaderLocation = 0\<rparr>]\<rparr>],
      fragment_module = \<lparr>sm_label = ''Cell shader'', sm_code = shaderCode h\<rparr>,
      fragment_entryPoint = ''fragmentMain'',
      fragment_targets = [preferred_format h]\<rparr>"

definition cell_vertices :: gpu_buffer where
  "cell_vertices = \<lparr>buf_label = ''Cell vertices'', buf_size = 48,
                     buf_usage = [VERTEX, COPY_DST],
                     buf_data = array_bytes (Float32Array quad)\<rparr>"

text \<open>The writes that the queue of a device has been given for one buffer.\<close>

definition vertex_writes :: "buffer_id \<Rightarrow> gpu_device \<Rightarrow> (buffer_id \<times> nat \<times> byte list) list" where
  "vertex_writes vb d = filter (\<lambda>w. fst w = vb) (writes d)"

text \<open>
  What stays true of the device once setup has completed: its first buffer is the vertex
  buffer with the bytes of the quad, written once.
\<close>

definition device_inv :: "gpu_device \<Rightarrow> bool" where
  "device_inv d \<longleftrightarrow> buffers d \<noteq> [] \<and> buffers d ! 0 = cell_vertices
     \<and> vertex_writes 0 d = [(0, 0, array_bytes (Float32Array quad))]"

text \<open>
  What every state of a session satisfies, by the stage of setup: nothing is set while
  setup waits; after it has returned, either nothing is set (no adapter), or only the
  device (no canvas or no context), or everything.
\<close>

definition session_inv :: "host \<Rightarrow> app \<Rightarrow> bool" where
  "session_inv h a =
     (case setup_pc a of
        NotCalled \<Rightarrow> False
      | AwaitAdapter \<Rightarrow> unset a
      | AwaitDevice \<Rightarrow> has_adapter h \<and> unset a
      | Returned \<Rightarrow>
          if \<not> has_adapter h then unset a
          else if \<not> has_canvas h \<or> \<not> has_context h
          then deviceRef a = Some new_device \<and> contextRef a = None \<and> pipelineRef a = None
               \<and> vertexBufferRef a = None \<and> verticesRef a = None
          else (case deviceRef a of None \<Rightarrow> False | Some d \<Rightarrow> device_inv d)
               \<and> contextRef a = Some \<lparr>configuration = Some (preferred_format h)\<rparr>
               \<and> pipelineRef a = Some (cell_pipeline h)
               \<and> vertexBufferRef a = Some 0
               \<and> verticesRef a = Some (Float32Array quad))"

section \<open>Binary32 encoding\<close>

lemma float32_fields:
  fixes N :: nat
  assumes N: "N < 2 ^ 31"
  shows "unat (take_bit 23 (word_of_nat N :: 32 word)) = N mod 2 ^ 23"
    and "unat (take_bit 8 (drop_bit 23 (word_of_nat N :: 32 word))) = N div 2 ^ 23"
    and "\<not> bit (word_of_nat N :: 32 word) 31"
proof -
  let ?w = "word_of_nat N :: 32 word"
  have u: "unat ?w = N" using N by (simp add: unat_of_nat)
  have "unat (take_bit 23 ?w) = take_bit 23 (unat ?w)" by (rule unsigned_take_bit_eq)
  then show "unat (take_bit 23 ?w) = N mod 2 ^ 23"
    by (simp only: u take_bit_eq_mod)
  have "unat (drop_bit 23 ?w) = drop_bit 23 (unat ?w)" by (rule unat_drop_bit_eq)
  then have d: "unat (drop_bit 23 ?w) = N div 2 ^ 23"
    by (simp only: u drop_bit_eq_div)
  have "N div 2 ^ 23 < 2 ^ 8" using N by (simp add: less_mult_imp_div_less)
  then have m: "(N div 2 ^ 23) mod 2 ^ 8 = N div 2 ^ 23" by (rule mod_less)
  have "unat (take_bit 8 (drop_bit 23 ?w)) = take_bit 8 (unat (drop_bit 23 ?w))"
    by (rule unsigned_take_bit_eq)
  then show "unat (take_bit 8 (drop_bit 23 ?w)) = N div 2 ^ 23"
    by (simp only: d take_bit_eq_mod m)
  have "N div 2 ^ 31 = 0" using N by simp
  then have "\<not> bit N 31" by (simp only: bit_iff_odd) simp
  moreover have "bit ?w 31 \<longleftrightarrow> possible_bit TYPE(32 word) 31 \<and> bit N 31"
    by (rule bit_of_nat_iff)
  ultimately show "\<not> bit ?w 31" by simp
qed

lemma pow2_powi: "pow2 k = power_int 2 k"
  by (simp add: pow2_def power_int_def field_simps)

lemma pow2_add: "pow2 (j + k) = pow2 j * pow2 k"
  by (simp add: pow2_powi power_int_add)

lemma ilog2_of_int:
  assumes "0 < n"
  shows "ilog2 (of_int n) = bitlen n - 1"
proof -
  have b1: "bitlen 1 = 1" by (simp add: bitlen_alt_def)
  have ge: "1 \<le> bitlen n" using assms by (auto simp: bitlen_alt_def)
  from bitlen_bounds [OF assms] have lo: "2 ^ nat (bitlen n - 1) \<le> n" by simp
  have "pow2 (bitlen n - 1) = of_int (2 ^ nat (bitlen n - 1))"
    using ge by (simp add: pow2_def)
  also have "\<dots> \<le> of_int n" using lo by (simp only: of_int_le_iff)
  finally show ?thesis
    by (simp add: ilog2_def b1 Let_def)
qed

lemma round_half_even_of_int: "round_half_even (of_int z) = z"
  by (simp add: round_half_even_def)

lemma bitlen_le_24:
  assumes n: "0 < n" "n < 2 ^ 24"
  shows "1 \<le> bitlen n" and "bitlen n \<le> 24"
proof -
  show ge: "1 \<le> bitlen n" using n by (auto simp: bitlen_alt_def)
  from bitlen_bounds [OF n(1)] have lo: "2 ^ nat (bitlen n - 1) \<le> n" by simp
  show "bitlen n \<le> 24"
  proof (rule ccontr)
    assume "\<not> bitlen n \<le> 24"
    then have "24 \<le> nat (bitlen n - 1)" by simp
    then have "(2::int) ^ 24 \<le> 2 ^ nat (bitlen n - 1)" by (rule power_increasing) simp
    with lo n show False by simp
  qed
qed

lemma significand_bounds:
  assumes n: "0 < n" "n < 2 ^ 24"
  shows "2 ^ 23 \<le> n * 2 ^ nat (24 - bitlen n)" and "n * 2 ^ nat (24 - bitlen n) < 2 ^ 24"
proof -
  let ?k = "nat (24 - bitlen n)"
  note b = bitlen_le_24 [OF n]
  from bitlen_bounds [OF n(1)]
  have lo: "2 ^ nat (bitlen n - 1) \<le> n" and hi: "n < 2 ^ nat (bitlen n)" by simp_all
  have "nat (bitlen n - 1) + ?k = 23" using b by simp
  then have "(2::int) ^ 23 = 2 ^ nat (bitlen n - 1) * 2 ^ ?k"
    by (simp only: power_add [symmetric])
  also have "\<dots> \<le> n * 2 ^ ?k" using lo by (simp add: mult_right_mono)
  finally show "2 ^ 23 \<le> n * 2 ^ ?k" .
  have "n * 2 ^ ?k < 2 ^ nat (bitlen n) * 2 ^ ?k" using hi by simp
  also have "nat (bitlen n) + ?k = 24" using b by simp
  then have "(2::int) ^ nat (bitlen n) * 2 ^ ?k = 2 ^ 24"
    by (simp only: power_add [symmetric])
  finally show "n * 2 ^ ?k < 2 ^ 24" .
qed

text \<open>An integer of at most 24 bits is stored exactly.\<close>

lemma float32_bits_of_int:
  assumes n: "0 < n" "n < 2 ^ 24"
  shows "float32_bits (of_int n) =
    word_of_int ((bitlen n + 125) * 2 ^ 23 + n * 2 ^ nat (24 - bitlen n))"
proof -
  note b = bitlen_le_24 [OF n]
  note m = significand_bounds [OF n]
  have sc: "of_int n * pow2 (24 - bitlen n) = of_int (n * 2 ^ nat (24 - bitlen n))"
    using b by (simp add: pow2_def)
  have mn: "min ((bitlen n + 125) * 2 ^ 23 + n * 2 ^ nat (24 - bitlen n)) (255 * 2 ^ 23)
      = (bitlen n + 125) * 2 ^ 23 + n * 2 ^ nat (24 - bitlen n)"
    using b m by simp
  have e: "max (ilog2 (of_int n)) (- 126) = bitlen n - 1"
    using b by (simp add: ilog2_of_int [OF n(1)])
  have a: "\<bar>of_int n :: rat\<bar> = of_int n" "(of_int n :: rat) \<noteq> 0" "\<not> (of_int n :: rat) < 0"
    using n by simp_all
  have i: "23 - (bitlen n - 1) = 24 - bitlen n" "bitlen n - 1 + 126 = bitlen n + 125" by simp_all
  show ?thesis
    unfolding float32_bits_def Let_def a e i sc round_half_even_of_int mn
    using a by simp
qed

lemma float32_int_roundtrip:
  assumes n: "0 < n" "n < 2 ^ 24"
  shows "float32_value (float32_bits (of_int n)) = Some (of_int n)"
proof -
  note b = bitlen_le_24 [OF n]
  note m = significand_bounds [OF n]
  define k where "k = nat (24 - bitlen n)"
  define M where "M = nat (n * 2 ^ k - 2 ^ 23)"
  define E where "E = nat (bitlen n + 126)"
  define N where "N = E * 2 ^ 23 + M"
  have Mlt: "M < 2 ^ 23" using m by (simp add: M_def k_def)
  have Ele: "E \<le> 150" "0 < E" using b by (simp_all add: E_def)
  have N: "N < 2 ^ 31" using Mlt Ele by (simp add: N_def)
  have "int N = (bitlen n + 125) * 2 ^ 23 + n * 2 ^ k"
    using b m by (simp add: N_def E_def M_def k_def)
  then have w: "float32_bits (of_int n) = word_of_nat N"
    by (simp only: float32_bits_of_int [OF n] k_def [symmetric] word_of_int_nat)
       (metis of_nat_0_le_iff word_of_int_nat nat_int)
  have dv: "N div 2 ^ 23 = E" and md: "N mod 2 ^ 23 = M"
    using Mlt by (simp_all add: N_def)
  have "of_nat (2 ^ 23 + M) = (of_int (n * 2 ^ k) :: rat)"
    using m by (simp add: M_def k_def)
  also have "\<dots> = of_int n * pow2 (24 - bitlen n)"
    using b by (simp add: pow2_def k_def)
  finally have sig: "(of_nat (2 ^ 23 + M) :: rat) = of_int n * pow2 (24 - bitlen n)" .
  have ex: "int E - 150 = bitlen n - 24" using b by (simp add: E_def)
  have "pow2 (24 - bitlen n) * pow2 (bitlen n - 24) = pow2 0"
    by (simp only: pow2_add [symmetric]) simp
  then have one: "pow2 (24 - bitlen n) * pow2 (bitlen n - 24) = 1"
    by (simp add: pow2_def)
  have "E \<noteq> 255" "E \<noteq> 0" using Ele by simp_all
  moreover note float32_fields(3) [OF N]
  ultimately show ?thesis
    unfolding w float32_value_def Let_def float32_fields(1,2) [OF N] dv md sig ex
    by (simp add: one)
qed

section \<open>Bytes of a typed array\<close>

lemma bytes_array_float32_bytes: "bytes_array (float32_bytes w @ bs) = w # bytes_array bs"
proof -
  let ?r = "ucast (ucast w :: byte) OR push_bit 8 (ucast (ucast (drop_bit 8 w) :: byte))
        OR push_bit 16 (ucast (ucast (drop_bit 16 w) :: byte))
        OR push_bit 24 (ucast (ucast (drop_bit 24 w) :: byte)) :: 32 word"
  have "?r = w"
  proof (rule bit_word_eqI)
    fix n assume "n < LENGTH(32)"
    then show "bit ?r n = bit w n"
      by (cases "n < 8"; cases "n < 16"; cases "n < 24") (auto simp: bit_simps)
  qed
  then show ?thesis by (simp add: float32_bytes_def)
qed

lemma bytes_array_array_bytes: "bytes_array (array_bytes a) = a"
  by (induction a) (simp_all add: array_bytes_def bytes_array_float32_bytes)

lemma length_float32_bytes: "length (float32_bytes w) = 4"
  by (simp add: float32_bytes_def)

lemma length_array_bytes: "length (array_bytes a) = byteLength a"
  by (induction a) (simp_all add: array_bytes_def byteLength_def length_float32_bytes)

section \<open>Properties of the draw function\<close>

lemma byteLength_Float32Array: "byteLength (Float32Array xs) = 4 * length xs"
  by (simp add: byteLength_def Float32Array_def)

lemma createBuffer_writeBuffer:
  "length bs = n \<Longrightarrow> createBuffer l n u d = (b, d1) \<Longrightarrow>
   writeBuffer b 0 bs d1 =
     d\<lparr>buffers := buffers d @ [\<lparr>buf_label = l, buf_size = n, buf_usage = u, buf_data = bs\<rparr>],
       writes := writes d @ [(length (buffers d), 0, bs)]\<rparr>"
  by (auto simp: createBuffer_def writeBuffer_def Let_def)

lemma draw_eq:
  "draw d c p vb vs g =
     d\<lparr>buffers := buffers d @
          [\<lparr>buf_label = ''Grid Uniforms'', buf_size = 8, buf_usage = [UNIFORM, COPY_DST],
            buf_data = array_bytes (Float32Array [of_int g, of_int g])\<rparr>],
       writes := writes d @
          [(length (buffers d), 0, array_bytes (Float32Array [of_int g, of_int g]))],
       submitted := submitted d @
          [[BeginRenderPass
              [\<lparr>att_view = c, loadOp = load_clear,
                clearValue = (0, 0, float64 (4 / 10), 1), storeOp = store_store\<rparr>],
            SetPipeline p,
            SetVertexBuffer 0 vb,
            SetBindGroup 0 \<lparr>bg_label = ''Cell renderer bind group'',
                             bg_layout = BindGroupLayout p 0,
                             bg_entries = [(0, length (buffers d))]\<rparr>,
            Draw (of_nat (length vs) / 2) (g * g),
            End]]\<rparr>"
proof -
  let ?a = "Float32Array [of_int g, of_int g]"
  have n: "length (array_bytes ?a) = 8" "byteLength ?a = 8"
    by (simp_all add: length_array_bytes byteLength_Float32Array)
  obtain b d1 where c: "createBuffer ''Grid Uniforms'' 8 [UNIFORM, COPY_DST] d = (b, d1)"
    by (cases "createBuffer ''Grid Uniforms'' 8 [UNIFORM, COPY_DST] d")
  then have b: "b = length (buffers d)" by (simp add: createBuffer_def)
  note w = createBuffer_writeBuffer [OF n(1) c]
  show ?thesis
    unfolding draw_def Let_def n c prod.case w submit_def
    by (simp add: b)
qed

lemma draw_calls_draw:
  "draw_calls (draw d c p vb vs g) = draw_calls d @ [(of_nat (length vs) / 2, g * g)]"
  by (simp add: draw_eq draw_calls_def)

lemma length_quad: "length (Float32Array quad) = 12"
  by (simp add: Float32Array_def quad_def)

section \<open>Properties of the grid size\<close>

lemma gridSize_drawEffect: "gridSize (drawEffect a) = gridSize a"
  by (simp add: drawEffect_def)

lemma gridSize_setGridSize: "gridSize (setGridSize v a) = v"
  by (simp add: setGridSize_def gridSize_drawEffect)

lemma gridSize_timer_callback: "gridSize (timer_callback a) = min (gridSize a + 1) 512"
  by (simp add: timer_callback_def gridSize_setGridSize)

lemma gridSize_setup_resume: "gridSize (setup_resume h a) = gridSize a"
  by (simp add: setup_resume_def setup_adapter_def setup_device_def Let_def createBuffer_def
      split: setup_stage.split)

lemma gridSize_ticks_le:
  "gridSize a \<le> 512 \<Longrightarrow> gridSize ((timer_callback ^^ t) a) \<le> 512"
  by (induction t) (simp_all add: gridSize_timer_callback)

lemma gridSize_step:
  "2 \<le> gridSize a \<Longrightarrow> gridSize a \<le> 512 \<Longrightarrow>
   2 \<le> gridSize (step h a ev) \<and> gridSize (step h a ev) \<le> 512"
  by (cases ev)
     (simp_all add: gridSize_timer_callback clickHandler_def gridSize_setGridSize
        gridSize_setup_resume)

lemma gridSize_foldl_step:
  "2 \<le> gridSize a \<Longrightarrow> gridSize a \<le> 512 \<Longrightarrow>
   2 \<le> gridSize (foldl (step h) a evs) \<and> gridSize (foldl (step h) a evs) \<le> 512"
proof (induction evs arbitrary: a)
  case Nil
  then show ?case by simp
next
  case (Cons ev evs)
  from gridSize_step [OF Cons.prems, of h ev] show ?case
    by (simp add: Cons.IH)
qed

lemma gridSize_mount: "gridSize mount = 4"
  by (simp add: mount_def gridSize_drawEffect setup_call_def initial_def)

section \<open>Setup and the draw effect\<close>

lemma length_quad_bytes: "length (array_bytes (Float32Array quad)) = 48"
  by (simp add: length_array_bytes byteLength_Float32Array quad_def)

lemma setup_device_full:
  assumes "has_canvas h" "has_context h"
  shows "setup_device h a =
     a\<lparr>deviceRef := Some \<lparr>buffers = [cell_vertices],
                           writes = [(0, 0, array_bytes (Float32Array quad))],
                           submitted = []\<rparr>,
       contextRef := Some \<lparr>configuration = Some (preferred_format h)\<rparr>,
       verticesRef := Some (Float32Array quad),
       vertexBufferRef := Some 0,
       pipelineRef := Some (cell_pipeline h),
       setup_pc := Returned\<rparr>"
proof -
  have n: "byteLength (Float32Array quad) = 48"
    by (simp add: byteLength_Float32Array quad_def)
  have c: "createBuffer ''Cell vertices'' 48 [VERTEX, COPY_DST] new_device
           = (0, new_device\<lparr>buffers := [\<lparr>buf_label = ''Cell vertices'', buf_size = 48,
                buf_usage = [VERTEX, COPY_DST], buf_data = replicate 48 0\<rparr>]\<rparr>)"
    by (simp add: createBuffer_def new_device_def)
  have w: "writeBuffer 0 0 (array_bytes (Float32Array quad))
             (new_device\<lparr>buffers := [\<lparr>buf_label = ''Cell vertices'', buf_size = 48,
                buf_usage = [VERTEX, COPY_DST], buf_data = replicate 48 0\<rparr>]\<rparr>)
           = \<lparr>buffers = [cell_vertices], writes = [(0, 0, array_bytes (Float32Array quad))],
              submitted = []\<rparr>"
    by (simp add: writeBuffer_def length_quad_bytes new_device_def cell_vertices_def Let_def)
  show ?thesis
    using assms
    by (simp add: setup_device_def Let_def n c w configure_def cell_pipeline_def)
qed

lemma setup_device_abort:
  assumes "\<not> has_canvas h \<or> \<not> has_context h"
  shows "setup_device h a = a\<lparr>deviceRef := Some new_device, setup_pc := Returned\<rparr>"
  using assms by (auto simp: setup_device_def Let_def)

lemma setup_adapter_abort:
  assumes "\<not> has_adapter h"
  shows "setup_adapter h a = a\<lparr>setup_pc := Returned\<rparr>"
  using assms by (simp add: setup_adapter_def)

lemma drawEffect_not_ready: "\<not> ready a \<Longrightarrow> drawEffect a = a"
  by (auto simp: drawEffect_def ready_def)

lemma drawEffect_ready:
  "ready a \<Longrightarrow> drawEffect a =
     a\<lparr>deviceRef := Some (draw (the (deviceRef a)) (the (contextRef a)) (the (pipelineRef a))
                              (the (vertexBufferRef a)) (the (verticesRef a)) (gridSize a))\<rparr>"
  by (auto simp: drawEffect_def ready_def)

lemma device_inv_draw:
  assumes "device_inv d"
  shows "device_inv (draw d c p vb vs g)"
proof -
  from assms have ne: "buffers d \<noteq> []" and b0: "buffers d ! 0 = cell_vertices"
    and w: "vertex_writes 0 d = [(0, 0, array_bytes (Float32Array quad))]"
    by (simp_all add: device_inv_def)
  from ne have l: "0 < length (buffers d)" by simp
  show ?thesis
    unfolding device_inv_def draw_eq vertex_writes_def
    using ne b0 w l by (simp add: nth_append vertex_writes_def)
qed

lemma session_inv_mount: "session_inv h mount"
  by (simp add: session_inv_def mount_def setup_call_def initial_def drawEffect_def unset_def)

lemma unset_not_ready: "unset a \<Longrightarrow> \<not> ready a"
  by (simp add: unset_def ready_def)

lemma session_inv_gridSize: "session_inv h (a\<lparr>gridSize := v\<rparr>) = session_inv h a"
  by (cases "setup_pc a") (simp_all add: session_inv_def unset_def)

lemma ready_gridSize: "ready (a\<lparr>gridSize := v\<rparr>) = ready a"
  by (simp add: ready_def)

lemma session_inv_ready:
  assumes "session_inv h a" "ready a"
  shows "has_adapter h \<and> has_canvas h \<and> has_context h \<and> setup_pc a = Returned
    \<and> (\<exists>d. deviceRef a = Some d \<and> device_inv d)
    \<and> contextRef a = Some \<lparr>configuration = Some (preferred_format h)\<rparr>
    \<and> pipelineRef a = Some (cell_pipeline h)
    \<and> vertexBufferRef a = Some 0
    \<and> verticesRef a = Some (Float32Array quad)"
  using assms
  by (cases "setup_pc a")
     (auto simp: session_inv_def ready_def unset_def split: if_splits option.splits)

lemma session_inv_drawEffect:
  assumes "session_inv h a"
  shows "session_inv h (drawEffect a)"
proof (cases "ready a")
  case False
  with assms show ?thesis by (simp add: drawEffect_not_ready)
next
  case True
  from session_inv_ready [OF assms True] obtain d where
    h: "has_adapter h" "has_canvas h" "has_context h" and pc: "setup_pc a = Returned"
    and d: "deviceRef a = Some d" "device_inv d"
    and r: "contextRef a = Some \<lparr>configuration = Some (preferred_format h)\<rparr>"
      "pipelineRef a = Some (cell_pipeline h)" "vertexBufferRef a = Some 0"
      "verticesRef a = Some (Float32Array quad)"
    by blast
  show ?thesis
    unfolding drawEffect_ready [OF True]
    using h pc d r by (simp add: session_inv_def device_inv_draw)
qed

lemma session_inv_setGridSize:
  "session_inv h a \<Longrightarrow> session_inv h (setGridSize v a)"
  by (simp add: setGridSize_def session_inv_drawEffect session_inv_gridSize)

lemma device_inv_setup: "device_inv \<lparr>buffers = [cell_vertices],
     writes = [(0, 0, array_bytes (Float32Array quad))], submitted = []\<rparr>"
  by (simp add: device_inv_def vertex_writes_def)

lemma session_inv_setup_resume:
  assumes "session_inv h a"
  shows "session_inv h (setup_resume h a)"
proof (cases "setup_pc a")
  case NotCalled
  with assms show ?thesis by (simp add: session_inv_def)
next
  case AwaitAdapter
  with assms show ?thesis
    by (simp add: setup_resume_def setup_adapter_def session_inv_def unset_def)
next
  case AwaitDevice
  with assms have u: "unset a" and ad: "has_adapter h" by (simp_all add: session_inv_def)
  show ?thesis
  proof (cases "has_canvas h \<and> has_context h")
    case True
    then show ?thesis
      using u ad AwaitDevice
      by (simp add: setup_resume_def setup_device_full session_inv_def device_inv_setup)
  next
    case False
    then have "\<not> has_canvas h \<or> \<not> has_context h" by simp
    from setup_device_abort [OF this] show ?thesis
      using u ad AwaitDevice False
      by (auto simp: setup_resume_def session_inv_def unset_def)
  qed
next
  case Returned
  with assms show ?thesis by (simp add: setup_resume_def)
qed

lemma session_inv_step: "session_inv h a \<Longrightarrow> session_inv h (step h a ev)"
  by (cases ev)
     (simp_all add: timer_callback_def clickHandler_def session_inv_setGridSize
        session_inv_setup_resume)

lemma session_inv_foldl:
  "session_inv h a \<Longrightarrow> session_inv h (foldl (step h) a evs)"
  by (induction evs arbitrary: a) (simp_all add: session_inv_step)

lemma session_inv_run: "session_inv h (run h evs)"
  unfolding run_def by (rule session_inv_foldl) (rule session_inv_mount)

lemma run_snoc: "run h (evs @ [ev]) = step h (run h evs) ev"
  by (simp add: run_def)

lemma frames_gridSize: "frames (a\<lparr>gridSize := v\<rparr>) = frames a"
  by (simp add: frames_def)

lemma frames_setGridSize:
  assumes "session_inv h a"
  shows "frames (setGridSize v a) =
     frames a @ (if ready a \<and> v \<noteq> gridSize a then [(6, v * v)] else [])"
proof (cases "ready a \<and> v \<noteq> gridSize a")
  case False
  then show ?thesis
    by (auto simp: setGridSize_def drawEffect_not_ready ready_gridSize frames_gridSize)
next
  case True
  then have r: "ready a" and v: "v \<noteq> gridSize a" by simp_all
  from session_inv_ready [OF assms r] obtain d where
    d: "deviceRef a = Some d" and vs: "verticesRef a = Some (Float32Array quad)"
    by blast
  from r have r': "ready (a\<lparr>gridSize := v\<rparr>)" by (simp add: ready_gridSize)
  show ?thesis
    using v r d vs
    by (simp add: setGridSize_def drawEffect_ready [OF r'] frames_def draw_calls_draw length_quad)
qed



lemma session_cases:
  assumes "session_inv h a"
  shows "unset a
    \<or> (deviceRef a = Some new_device \<and> contextRef a = None \<and> pipelineRef a = None
        \<and> vertexBufferRef a = None \<and> verticesRef a = None)
    \<or> (ready a \<and> (\<exists>d. deviceRef a = Some d \<and> device_inv d) \<and> vertexBufferRef a = Some 0
        \<and> verticesRef a = Some (Float32Array quad))"
  using assms
  by (cases "setup_pc a")
     (auto simp: session_inv_def ready_def split: if_splits option.splits)

lemma vertex_writes_draw:
  assumes "vb < length (buffers d)"
  shows "vertex_writes vb (draw d c p vb' vs g) = vertex_writes vb d"
    and "buffers (draw d c p vb' vs g) ! vb = buffers d ! vb"
  using assms by (simp_all add: draw_eq vertex_writes_def nth_append)

lemma quad_bytes:
  "array_bytes (Float32Array quad) =
     [205, 204, 76, 191, 205, 204, 76, 191, 205, 204, 76, 63, 205, 204, 76, 191,
      205, 204, 76, 63, 205, 204, 76, 63, 205, 204, 76, 191, 205, 204, 76, 191,
      205, 204, 76, 63, 205, 204, 76, 63, 205, 204, 76, 191, 205, 204, 76, 63]"
  by code_simp

lemma not_ready_frames:
  assumes "session_inv h a" "\<not> ready a"
  shows "frames a = []"
  using session_cases [OF assms(1)] assms(2)
  by (auto simp: frames_def unset_def new_device_def draw_calls_def)

lemma mount_eq: "mount = initial\<lparr>setup_pc := AwaitAdapter\<rparr>"
  by (simp add: mount_def setup_call_def drawEffect_def initial_def)

lemma full_host_simps:
  "has_adapter full_host" "has_canvas full_host" "has_context full_host"
  "preferred_format full_host = bgra8unorm" "shaderCode full_host = []"
  by (simp_all add: full_host_def)

lemma run_full_setup:
  "run full_host [Resolve, Resolve] =
     \<lparr>gridSize = 4,
      deviceRef = Some \<lparr>buffers = [cell_vertices],
                         writes = [(0, 0, array_bytes (Float32Array quad))],
                         submitted = []\<rparr>,
      pipelineRef = Some (cell_pipeline full_host),
      contextRef = Some \<lparr>configuration = Some bgra8unorm\<rparr>,
      vertexBufferRef = Some 0,
      verticesRef = Some (Float32Array quad),
      setup_pc = Returned\<rparr>"
  by (simp add: run_def mount_eq initial_def setup_resume_def setup_adapter_def
      setup_device_full full_host_simps)

lemma run_full_tick:
  "vertexBufferRef (run full_host [Resolve, Resolve, Tick]) = Some 0"
  "deviceRef (run full_host [Resolve, Resolve, Tick])
     = Some (draw \<lparr>buffers = [cell_vertices],
                   writes = [(0, 0, array_bytes (Float32Array quad))],
                   submitted = []\<rparr>
               \<lparr>configuration = Some bgra8unorm\<rparr> (cell_pipeline full_host) 0
               (Float32Array quad) 5)"
  "gridSize (run full_host [Resolve, Resolve, Tick]) = 5"
proof -
  have "run full_host [Resolve, Resolve, Tick]
          = timer_callback (run full_host [Resolve, Resolve])"
    using run_snoc [of full_host "[Resolve, Resolve]" Tick] by simp
  then show "vertexBufferRef (run full_host [Resolve, Resolve, Tick]) = Some 0"
    "deviceRef (run full_host [Resolve, Resolve, Tick])
     = Some (draw \<lparr>buffers = [cell_vertices],
                   writes = [(0, 0, array_bytes (Float32Array quad))],
                   submitted = []\<rparr>
               \<lparr>configuration = Some bgra8unorm\<rparr> (cell_pipeline full_host) 0
               (Float32Array quad) 5)"
    "gridSize (run full_host [Resolve, Resolve, Tick]) = 5"
    by (simp_all add: run_full_setup timer_callback_def setGridSize_def drawEffect_def)
qed

lemma no_adapter_unset:
  assumes "\<not> has_adapter h"
  shows "unset (run h evs)"
  using session_inv_run [of h evs] assms
  by (cases "setup_pc (run h evs)") (simp_all add: session_inv_def)

lemma no_surface_refs:
  assumes "\<not> has_canvas h \<or> \<not> has_context h"
  shows "contextRef (run h evs) = None \<and> pipelineRef (run h evs) = None
    \<and> vertexBufferRef (run h evs) = None \<and> verticesRef (run h evs) = None"
  using session_inv_run [of h evs] assms
  by (cases "setup_pc (run h evs)") (auto simp: session_inv_def unset_def split: if_splits)

lemma no_surface_not_ready:
  assumes "\<not> has_canvas h \<or> \<not> has_context h"
  shows "\<not> ready (run h evs)"
  using no_surface_refs [OF assms, of evs] by (simp add: ready_def)

lemma run_no_canvas:
  "run no_canvas_host [Resolve, Resolve]
     = initial\<lparr>deviceRef := Some new_device, setup_pc := Returned\<rparr>"
proof -
  have "\<not> has_canvas no_canvas_host \<or> \<not> has_context no_canvas_host"
    "has_adapter no_canvas_host"
    by (simp_all add: no_canvas_host_def full_host_def)
  then show ?thesis
    by (simp add: run_def mount_eq setup_resume_def setup_adapter_def setup_device_abort)
qed

lemma full_returned_ready:
  assumes "has_adapter h" "has_canvas h" "has_context h" "setup_pc (run h evs) = Returned"
  shows "ready (run h evs)"
  using session_inv_run [of h evs] assms
  by (auto simp: session_inv_def ready_def split: option.splits)

section \<open>The progress of setup\<close>

lemma setup_pc_setGridSize: "setup_pc (setGridSize v a) = setup_pc a"
  by (simp add: setGridSize_def drawEffect_def)

lemma setup_pc_setup_device: "setup_pc (setup_device h a) = Returned"
proof (cases "has_canvas h \<and> has_context h")
  case True
  then show ?thesis by (simp add: setup_device_full)
next
  case False
  then have "\<not> has_canvas h \<or> \<not> has_context h" by simp
  from setup_device_abort [OF this] show ?thesis by simp
qed

lemma setup_pc_setup_resume:
  "setup_pc (setup_resume h a) =
     (case setup_pc a of
        AwaitAdapter \<Rightarrow> if has_adapter h then AwaitDevice else Returned
      | AwaitDevice \<Rightarrow> Returned
      | pc \<Rightarrow> pc)"
  by (cases "setup_pc a")
     (simp_all add: setup_resume_def setup_adapter_def setup_pc_setup_device)

lemma setup_pc_run:
  "setup_pc (run h evs) =
     (if count_list evs Resolve = 0 then AwaitAdapter
      else if count_list evs Resolve = 1 \<and> has_adapter h then AwaitDevice
      else Returned)"
proof (induction evs rule: rev_induct)
  case Nil
  show ?case by (simp add: run_def mount_eq initial_def)
next
  case (snoc ev evs)
  show ?case
  proof (cases ev)
    case Tick
    with snoc show ?thesis
      by (simp add: run_snoc timer_callback_def setup_pc_setGridSize)
  next
    case Click
    with snoc show ?thesis
      by (simp add: run_snoc clickHandler_def setup_pc_setGridSize)
  next
    case Resolve
    with snoc show ?thesis
      by (simp add: run_snoc setup_pc_setup_resume)
  qed
qed

lemma ready_run_iff:
  "ready (run h evs) \<longleftrightarrow>
     has_adapter h \<and> has_canvas h \<and> has_context h \<and> 2 \<le> count_list evs Resolve"
proof
  assume r: "ready (run h evs)"
  from session_inv_ready [OF session_inv_run r]
  have c: "has_adapter h" "has_canvas h" "has_context h" and pc: "setup_pc (run h evs) = Returned"
    by simp_all
  from pc c(1) have "2 \<le> count_list evs Resolve"
    by (simp add: setup_pc_run split: if_splits)
  with c show "has_adapter h \<and> has_canvas h \<and> has_context h \<and> 2 \<le> count_list evs Resolve"
    by simp
next
  assume c: "has_adapter h \<and> has_canvas h \<and> has_context h \<and> 2 \<le> count_list evs Resolve"
  then have "setup_pc (run h evs) = Returned" by (simp add: setup_pc_run)
  with c show "ready (run h evs)" by (simp add: full_returned_ready)
qed

lemma vertexBufferRef_run_iff:
  "vertexBufferRef (run h evs) \<noteq> None \<longleftrightarrow> ready (run h evs)"
  using session_cases [OF session_inv_run [of h evs]]
  by (auto simp: unset_def ready_def)


lemma not_ready_session_writes:
  assumes "\<not> ready (run h evs)"
  shows "vertexBufferRef (run h evs) = None \<and> session_writes (run h evs) = []"
  using session_cases [OF session_inv_run [of h evs]] assms
  by (auto simp: unset_def session_writes_def new_device_def)

lemma ready_vertex_buffer:
  assumes "ready (run h evs)"
  shows "vertexBufferRef (run h evs) = Some 0
    \<and> verticesRef (run h evs) = Some (Float32Array quad)
    \<and> deviceRef (run h evs) \<noteq> None
    \<and> vertex_writes 0 (the (deviceRef (run h evs)))
        = [(0, 0, array_bytes (Float32Array quad))]
    \<and> buf_data (buffers (the (deviceRef (run h evs))) ! 0) = array_bytes (Float32Array quad)"
  using session_inv_ready [OF session_inv_run assms]
  by (auto simp: device_inv_def cell_vertices_def)

section \<open>The properties of the specification\<close>

text \<open>
  Claim C1. A call of \<open>draw\<close> submits one command buffer, and it holds exactly one draw
  call: the list of draw calls of the device grows by one entry, whose vertex count is the
  length of the vertex array divided by 2 and whose instance count is the square of the
  grid size. With the quad of the component the vertex count is 6. This holds for every
  grid size, in particular for those from 2 to 512.
\<close>

theorem draw_issues_one_instanced_draw_call:
  "draw_calls (draw device context pipeline vertexBuffer vertices g)
     = draw_calls device @ [(of_nat (length vertices) / 2, g * g)]
   \<and> length (submitted (draw device context pipeline vertexBuffer vertices g))
       = length (submitted device) + 1
   \<and> draw_calls (draw device context pipeline vertexBuffer (Float32Array quad) g)
     = draw_calls device @ [(6, g * g)]"
  by (simp add: draw_calls_draw length_quad) (simp add: draw_eq)

text \<open>
  Claim C2. From any grid size \<open>s\<close>, a timer tick leaves the grid size at
  \<open>min (s + 1) 512\<close>, which is at most 512. In a sequence of ticks that starts at a size
  of at most 512 (every size the component reaches is), each size is the minimum of its
  predecessor plus one and 512, no size is smaller than its predecessor and none exceeds
  512. At 512 a tick changes nothing at all.
\<close>

theorem timer_tick_clamps_grid_size:
  "gridSize (timer_callback a) = min (gridSize a + 1) 512
   \<and> gridSize (timer_callback a) \<le> 512
   \<and> (gridSize a \<le> 512 \<longrightarrow>
        (\<forall>t. gridSize ((timer_callback ^^ Suc t) a)
               = min (gridSize ((timer_callback ^^ t) a) + 1) 512
           \<and> gridSize ((timer_callback ^^ t) a) \<le> gridSize ((timer_callback ^^ Suc t) a)
           \<and> gridSize ((timer_callback ^^ Suc t) a) \<le> 512))
   \<and> (gridSize a = 512 \<longrightarrow> timer_callback a = a)"
proof (intro conjI impI allI)
  show "gridSize (timer_callback a) = min (gridSize a + 1) 512"
    by (rule gridSize_timer_callback)
  show "gridSize (timer_callback a) \<le> 512"
    by (simp add: gridSize_timer_callback)
  show "timer_callback a = a" if "gridSize a = 512"
    using that by (simp add: timer_callback_def setGridSize_def)
next
  fix t assume a: "gridSize a \<le> 512"
  show "gridSize ((timer_callback ^^ Suc t) a)
          = min (gridSize ((timer_callback ^^ t) a) + 1) 512"
    by (simp add: gridSize_timer_callback)
  show "gridSize ((timer_callback ^^ t) a) \<le> gridSize ((timer_callback ^^ Suc t) a)"
    using gridSize_ticks_le [OF a, of t] by (simp add: gridSize_timer_callback)
  show "gridSize ((timer_callback ^^ Suc t) a) \<le> 512"
    by (simp add: gridSize_timer_callback)
qed

text \<open>
  The sequence of ticks after mounting (4, 5, 6, 7), and a tick at the cap.
\<close>

theorem timer_tick_clamps_grid_size_witness:
  "gridSize mount \<le> 512
   \<and> gridSize (timer_callback mount) = 5
   \<and> gridSize ((timer_callback ^^ 3) mount) = 7
   \<and> gridSize mount \<le> gridSize (timer_callback mount)
   \<and> gridSize (mount\<lparr>gridSize := 512\<rparr>) = 512
   \<and> timer_callback (mount\<lparr>gridSize := 512\<rparr>) = mount\<lparr>gridSize := 512\<rparr>"
proof -
  have m: "gridSize mount = 4"
    by (simp add: mount_def gridSize_drawEffect setup_call_def initial_def)
  have c: "gridSize (mount\<lparr>gridSize := 512\<rparr>) = 512" by simp
  from timer_tick_clamps_grid_size [of mount] m
  have 1: "gridSize (timer_callback mount) = 5"
    and s: "\<And>t. gridSize ((timer_callback ^^ Suc t) mount)
               = min (gridSize ((timer_callback ^^ t) mount) + 1) 512"
    and l: "gridSize mount \<le> gridSize ((timer_callback ^^ Suc 0) mount)"
    by simp_all
  have 2: "gridSize ((timer_callback ^^ 2) mount) = 6"
    using s [of 1] 1 by (simp add: numeral_2_eq_2)
  have 3: "gridSize ((timer_callback ^^ 3) mount) = 7"
    using s [of 2] 2 by (simp add: numeral_3_eq_3 numeral_2_eq_2)
  from timer_tick_clamps_grid_size [of "mount\<lparr>gridSize := 512\<rparr>"] c
  have 4: "timer_callback (mount\<lparr>gridSize := 512\<rparr>) = mount\<lparr>gridSize := 512\<rparr>"
    by blast
  from m 1 3 l 4 show ?thesis by simp
qed

text \<open>
  Claim C3. Whatever the grid size was, it is 2 after the click handler of the restart
  button has run.
\<close>

theorem reset_sets_grid_size_to_two: "gridSize (clickHandler a) = 2"
  by (simp add: clickHandler_def gridSize_setGridSize)

text \<open>
  Claim C4. For a grid size \<open>g\<close> from 2 to 512, \<open>draw\<close> creates one new buffer of usage
  uniform and copy-destination and of size 8, and writes into it, at offset 0, the 8 bytes
  of the array of \<open>g\<close> and \<open>g\<close>: two binary32 numbers one after the other, with no byte
  between or after them. Read back as binary32 numbers, the bytes are \<open>g\<close> and \<open>g\<close>.
\<close>

theorem uniform_buffer_holds_grid_size_twice:
  assumes "2 \<le> g" and "g \<le> 512"
  shows "buffers (draw device context pipeline vertexBuffer vertices g)
           = buffers device @
             [\<lparr>buf_label = ''Grid Uniforms'', buf_size = 8, buf_usage = [UNIFORM, COPY_DST],
               buf_data = array_bytes (Float32Array [of_int g, of_int g])\<rparr>]
         \<and> writes (draw device context pipeline vertexBuffer vertices g)
           = writes device @
             [(length (buffers device), 0, array_bytes (Float32Array [of_int g, of_int g]))]
         \<and> length (array_bytes (Float32Array [of_int g, of_int g])) = 8
         \<and> map float32_value (bytes_array (array_bytes (Float32Array [of_int g, of_int g])))
           = [Some (of_int g), Some (of_int g)]"
proof -
  from assms have "0 < g" "g < 2 ^ 24" by simp_all
  then have "float32_value (float32_bits (of_int g)) = Some (of_int g)"
    by (rule float32_int_roundtrip)
  then show ?thesis
    by (simp add: draw_eq bytes_array_array_bytes length_array_bytes byteLength_Float32Array)
       (simp add: Float32Array_def)
qed

text \<open>
  The uniform buffer of a draw at grid size 5 after setup, the second buffer of the
  device: the bytes of 5.0 twice.
\<close>

theorem uniform_buffer_holds_grid_size_twice_witness:
  "(2::int) \<le> 5 \<and> (5::int) \<le> 512
   \<and> buffers (draw (the (deviceRef (run full_host [Resolve, Resolve])))
                (the (contextRef (run full_host [Resolve, Resolve])))
                (the (pipelineRef (run full_host [Resolve, Resolve])))
                (the (vertexBufferRef (run full_host [Resolve, Resolve])))
                (the (verticesRef (run full_host [Resolve, Resolve]))) 5) ! 1
      = \<lparr>buf_label = ''Grid Uniforms'', buf_size = 8, buf_usage = [UNIFORM, COPY_DST],
         buf_data = [0, 0, 160, 64, 0, 0, 160, 64]\<rparr>
   \<and> map float32_value (bytes_array [0, 0, 160, 64, 0, 0, 160, 64]) = [Some 5, Some 5]"
proof -
  have b: "array_bytes (Float32Array [of_int 5, of_int 5]) = [0, 0, 160, 64, 0, 0, 160, 64]"
    by code_simp
  from uniform_buffer_holds_grid_size_twice [of 5
      "the (deviceRef (run full_host [Resolve, Resolve]))"
      "the (contextRef (run full_host [Resolve, Resolve]))"
      "the (pipelineRef (run full_host [Resolve, Resolve]))"
      "the (vertexBufferRef (run full_host [Resolve, Resolve]))"
      "the (verticesRef (run full_host [Resolve, Resolve]))"]
  show ?thesis
    unfolding b by (simp add: run_full_setup)
qed

text \<open>
  Claim C5. In every state the component reaches from mounting, under any sequence of
  timer ticks, clicks and resolutions of the promises that setup waits for, and in any
  browser, the grid size is an integer from 2 to 512.
\<close>

theorem grid_size_between_2_and_512:
  "2 \<le> gridSize (run h evs) \<and> gridSize (run h evs) \<le> 512"
  unfolding run_def by (rule gridSize_foldl_step) (simp_all add: gridSize_mount)

text \<open>
  Claim C6 as stated fails. In a session without an adapter setup returns before it
  creates the vertex buffer: after setup has returned, and after a tick and a click, there
  is no vertex buffer and nothing has been written to any buffer, so the vertex buffer is
  not written once in this session but never.
\<close>

theorem session_without_adapter_writes_no_vertex_buffer:
  "setup_pc (run no_adapter_host [Resolve, Resolve, Tick, Click]) = Returned
   \<and> vertexBufferRef (run no_adapter_host [Resolve, Resolve, Tick, Click]) = None
   \<and> session_writes (run no_adapter_host [Resolve, Resolve, Tick, Click]) = []"
proof -
  have a: "\<not> has_adapter no_adapter_host" by (simp add: no_adapter_host_def)
  then have "\<not> ready (run no_adapter_host [Resolve, Resolve, Tick, Click])"
    by (simp add: ready_run_iff)
  from not_ready_session_writes [OF this] a show ?thesis
    by (simp add: setup_pc_run)
qed

text \<open>
  Claim C6, amended. In a session whose browser provides the adapter, the canvas element
  and its context, once both promises that setup waits for have resolved, in every state:
  the vertex buffer exists, the queue has been given exactly one write for it, at offset 0
  and with the bytes of the array of the twelve numbers of the quad, the buffer holds these
  bytes, and the vertex array is that array. The write is made by setup: its last segment
  creates the buffer and writes it, on a device that has no other buffer and no other
  write. In every other state (before both promises have resolved, or when one of the
  three is not provided) there is no vertex buffer and nothing has been written to any
  buffer. A call of \<open>draw\<close> adds no write for a buffer that exists when it is called and
  leaves the contents of that buffer as they are, and the draw effect leaves the references
  to the vertex array and the vertex buffer as they are.
\<close>

theorem vertex_buffer_written_once_in_setup:
  "(has_adapter h \<and> has_canvas h \<and> has_context h \<and> 2 \<le> count_list evs Resolve \<longrightarrow>
      vertexBufferRef (run h evs) = Some 0
      \<and> verticesRef (run h evs) = Some (Float32Array quad)
      \<and> deviceRef (run h evs) \<noteq> None
      \<and> vertex_writes 0 (the (deviceRef (run h evs)))
          = [(0, 0, array_bytes (Float32Array quad))]
      \<and> buf_data (buffers (the (deviceRef (run h evs))) ! 0)
          = array_bytes (Float32Array quad))
   \<and> (has_canvas h \<and> has_context h \<longrightarrow>
      vertexBufferRef (setup_device h a) = Some 0
      \<and> deviceRef (setup_device h a)
          = Some \<lparr>buffers = [\<lparr>buf_label = ''Cell vertices'', buf_size = 48,
                                buf_usage = [VERTEX, COPY_DST],
                                buf_data = array_bytes (Float32Array quad)\<rparr>],
                   writes = [(0, 0, array_bytes (Float32Array quad))],
                   submitted = []\<rparr>)
   \<and> (\<not> (has_adapter h \<and> has_canvas h \<and> has_context h \<and> 2 \<le> count_list evs Resolve) \<longrightarrow>
      vertexBufferRef (run h evs) = None \<and> session_writes (run h evs) = [])
   \<and> (vertexBufferRef (run h evs) = None \<longrightarrow>
      deviceRef (run h evs) = None \<or> writes (the (deviceRef (run h evs))) = [])
   \<and> (vertexBufferRef (run h evs) \<noteq> None \<longrightarrow>
      deviceRef (run h evs) \<noteq> None
      \<and> vertex_writes (the (vertexBufferRef (run h evs))) (the (deviceRef (run h evs)))
          = [(the (vertexBufferRef (run h evs)), 0, array_bytes (Float32Array quad))]
      \<and> buf_data (buffers (the (deviceRef (run h evs))) ! the (vertexBufferRef (run h evs)))
          = array_bytes (Float32Array quad)
      \<and> verticesRef (run h evs) = Some (Float32Array quad))
   \<and> (vb < length (buffers d) \<longrightarrow>
      vertex_writes vb (draw d c p vb vs g) = vertex_writes vb d
      \<and> buffers (draw d c p vb vs g) ! vb = buffers d ! vb)
   \<and> verticesRef (drawEffect a) = verticesRef a
   \<and> vertexBufferRef (drawEffect a) = vertexBufferRef a"
proof -
  have 0: "has_adapter h \<and> has_canvas h \<and> has_context h \<and> 2 \<le> count_list evs Resolve \<longrightarrow>
      vertexBufferRef (run h evs) = Some 0
      \<and> verticesRef (run h evs) = Some (Float32Array quad)
      \<and> deviceRef (run h evs) \<noteq> None
      \<and> vertex_writes 0 (the (deviceRef (run h evs)))
          = [(0, 0, array_bytes (Float32Array quad))]
      \<and> buf_data (buffers (the (deviceRef (run h evs))) ! 0)
          = array_bytes (Float32Array quad)"
    using ready_vertex_buffer [of h evs] by (simp only: ready_run_iff) blast
  have s: "has_canvas h \<and> has_context h \<longrightarrow>
      vertexBufferRef (setup_device h a) = Some 0
      \<and> deviceRef (setup_device h a)
          = Some \<lparr>buffers = [\<lparr>buf_label = ''Cell vertices'', buf_size = 48,
                                buf_usage = [VERTEX, COPY_DST],
                                buf_data = array_bytes (Float32Array quad)\<rparr>],
                   writes = [(0, 0, array_bytes (Float32Array quad))],
                   submitted = []\<rparr>"
    by (simp add: setup_device_full cell_vertices_def)
  have n: "\<not> (has_adapter h \<and> has_canvas h \<and> has_context h \<and> 2 \<le> count_list evs Resolve) \<longrightarrow>
      vertexBufferRef (run h evs) = None \<and> session_writes (run h evs) = []"
    using not_ready_session_writes [of h evs] by (simp only: ready_run_iff) blast
  have 1: "vertexBufferRef (run h evs) = None \<longrightarrow>
      deviceRef (run h evs) = None \<or> writes (the (deviceRef (run h evs))) = []"
    using session_cases [OF session_inv_run [of h evs]]
    by (auto simp: unset_def new_device_def)
  have 2: "vertexBufferRef (run h evs) \<noteq> None \<longrightarrow>
      deviceRef (run h evs) \<noteq> None
      \<and> vertex_writes (the (vertexBufferRef (run h evs))) (the (deviceRef (run h evs)))
          = [(the (vertexBufferRef (run h evs)), 0, array_bytes (Float32Array quad))]
      \<and> buf_data (buffers (the (deviceRef (run h evs))) ! the (vertexBufferRef (run h evs)))
          = array_bytes (Float32Array quad)
      \<and> verticesRef (run h evs) = Some (Float32Array quad)"
    using session_cases [OF session_inv_run [of h evs]]
    by (auto simp: unset_def device_inv_def cell_vertices_def)
  have 3: "vb < length (buffers d) \<longrightarrow>
      vertex_writes vb (draw d c p vb vs g) = vertex_writes vb d
      \<and> buffers (draw d c p vb vs g) ! vb = buffers d ! vb"
    by (simp add: vertex_writes_draw)
  have 4: "verticesRef (drawEffect a) = verticesRef a"
    "vertexBufferRef (drawEffect a) = vertexBufferRef a"
    by (simp_all add: drawEffect_def)
  from 0 s n 1 2 3 4 show ?thesis by blast
qed

text \<open>
  A session in which setup completes and a tick draws a frame: the one write to the vertex
  buffer, with the 48 bytes of the quad, is still the only one after the draw. Before the
  second promise has resolved there is no vertex buffer and no write.
\<close>

theorem vertex_buffer_written_once_in_setup_witness:
  "has_adapter full_host \<and> has_canvas full_host \<and> has_context full_host
   \<and> 2 \<le> count_list [Resolve, Resolve, Tick] Resolve
   \<and> vertexBufferRef (run full_host [Resolve, Resolve, Tick]) = Some 0
   \<and> vertex_writes 0 (the (deviceRef (run full_host [Resolve, Resolve, Tick])))
      = [(0, 0,
          [205, 204, 76, 191, 205, 204, 76, 191, 205, 204, 76, 63, 205, 204, 76, 191,
           205, 204, 76, 63, 205, 204, 76, 63, 205, 204, 76, 191, 205, 204, 76, 191,
           205, 204, 76, 63, 205, 204, 76, 63, 205, 204, 76, 191, 205, 204, 76, 63])]
   \<and> \<not> (has_adapter full_host \<and> has_canvas full_host \<and> has_context full_host
          \<and> 2 \<le> count_list [Resolve, Tick] Resolve)
   \<and> vertexBufferRef (run full_host [Resolve, Tick]) = None
   \<and> session_writes (run full_host [Resolve, Tick]) = []
   \<and> (0::nat) < length (buffers (the (deviceRef (run full_host [Resolve, Resolve]))))
   \<and> vertex_writes 0 (the (deviceRef (run full_host [Resolve, Resolve, Tick])))
      = vertex_writes 0 (the (deviceRef (run full_host [Resolve, Resolve])))"
proof -
  let ?D = "\<lparr>buffers = [cell_vertices], writes = [(0, 0, array_bytes (Float32Array quad))],
             submitted = []\<rparr>"
  let ?D' = "draw ?D \<lparr>configuration = Some bgra8unorm\<rparr> (cell_pipeline full_host) 0
               (Float32Array quad) 5"
  have l: "(0::nat) < length (buffers ?D)" by simp
  have c3: "2 \<le> count_list [Resolve, Resolve, Tick] Resolve" by simp
  have c1: "\<not> 2 \<le> count_list [Resolve, Tick] Resolve" by simp
  note t = vertex_buffer_written_once_in_setup [of full_host "[Resolve, Resolve, Tick]" mount
      0 ?D "\<lparr>configuration = Some bgra8unorm\<rparr>" "cell_pipeline full_host"
      "Float32Array quad" 5]
  note u = vertex_buffer_written_once_in_setup [of full_host "[Resolve, Tick]" mount
      0 ?D "\<lparr>configuration = Some bgra8unorm\<rparr>" "cell_pipeline full_host"
      "Float32Array quad" 5]
  from t c3 have 1: "vertexBufferRef (run full_host [Resolve, Resolve, Tick]) = Some 0"
    "vertex_writes 0 (the (deviceRef (run full_host [Resolve, Resolve, Tick])))
       = [(0, 0, array_bytes (Float32Array quad))]"
    by (simp_all only: full_host_simps simp_thms)
  from t l have 2: "vertex_writes 0 ?D' = vertex_writes 0 ?D"
    by blast
  from u c1 have 3: "vertexBufferRef (run full_host [Resolve, Tick]) = None"
    "session_writes (run full_host [Resolve, Tick]) = []"
    by blast+
  from 1 2 3 c1 c3 show ?thesis
    unfolding run_full_tick run_full_setup
    by (simp add: quad_bytes full_host_simps)
qed

text \<open>
  Claim C7. Without an adapter, setup returns in the turn in which the request resolves,
  having changed nothing, and in every state of the session all five references are
  undefined and no frame has been drawn. With an adapter but without the canvas element
  or without its context, setup returns at that check without setting the context, the
  pipeline, the vertex buffer or the vertex array; these four stay undefined in every
  state of the session, and no frame is ever drawn. Returning is all that setup does in
  these cases: the model of setup has no error to signal.
\<close>

theorem setup_aborts_silently:
  "(\<not> has_adapter h \<longrightarrow>
      setup_adapter h a = a\<lparr>setup_pc := Returned\<rparr>
      \<and> deviceRef (run h evs) = None \<and> contextRef (run h evs) = None
      \<and> pipelineRef (run h evs) = None \<and> vertexBufferRef (run h evs) = None
      \<and> verticesRef (run h evs) = None \<and> frames (run h evs) = [])
   \<and> (has_adapter h \<and> (\<not> has_canvas h \<or> \<not> has_context h) \<longrightarrow>
      setup_pc (setup_device h a) = Returned
      \<and> contextRef (setup_device h a) = contextRef a
      \<and> pipelineRef (setup_device h a) = pipelineRef a
      \<and> vertexBufferRef (setup_device h a) = vertexBufferRef a
      \<and> verticesRef (setup_device h a) = verticesRef a
      \<and> contextRef (run h evs) = None \<and> pipelineRef (run h evs) = None
      \<and> vertexBufferRef (run h evs) = None \<and> verticesRef (run h evs) = None
      \<and> frames (run h evs) = [])"
proof (intro conjI impI)
  assume n: "\<not> has_adapter h"
  show "setup_adapter h a = a\<lparr>setup_pc := Returned\<rparr>"
    by (rule setup_adapter_abort [OF n])
  from no_adapter_unset [OF n, of evs]
  show "deviceRef (run h evs) = None" "contextRef (run h evs) = None"
    "pipelineRef (run h evs) = None" "vertexBufferRef (run h evs) = None"
    "verticesRef (run h evs) = None" "frames (run h evs) = []"
    by (simp_all add: unset_def frames_def)
next
  assume "has_adapter h \<and> (\<not> has_canvas h \<or> \<not> has_context h)"
  then have n: "\<not> has_canvas h \<or> \<not> has_context h" by simp
  from setup_device_abort [OF n, of a]
  show "setup_pc (setup_device h a) = Returned"
    "contextRef (setup_device h a) = contextRef a"
    "pipelineRef (setup_device h a) = pipelineRef a"
    "vertexBufferRef (setup_device h a) = vertexBufferRef a"
    "verticesRef (setup_device h a) = verticesRef a"
    by simp_all
  from no_surface_refs [OF n, of evs]
  show "contextRef (run h evs) = None" "pipelineRef (run h evs) = None"
    "vertexBufferRef (run h evs) = None" "verticesRef (run h evs) = None"
    by simp_all
  show "frames (run h evs) = []"
    by (rule not_ready_frames [OF session_inv_run no_surface_not_ready [OF n]])
qed

text \<open>
  A session without an adapter and a session without a context.
\<close>

theorem setup_aborts_silently_witness:
  "\<not> has_adapter no_adapter_host
   \<and> setup_pc (setup_adapter no_adapter_host mount) = Returned
   \<and> deviceRef (run no_adapter_host [Resolve, Tick, Click]) = None
   \<and> frames (run no_adapter_host [Resolve, Tick, Click]) = []
   \<and> has_adapter no_context_host \<and> \<not> has_context no_context_host
   \<and> setup_pc (setup_device no_context_host mount) = Returned
   \<and> pipelineRef (run no_context_host [Resolve, Resolve, Tick]) = None
   \<and> frames (run no_context_host [Resolve, Resolve, Tick]) = []"
proof -
  have a: "\<not> has_adapter no_adapter_host"
    by (simp add: no_adapter_host_def)
  have c: "has_adapter no_context_host" "\<not> has_context no_context_host"
    by (simp_all add: no_context_host_def full_host_def)
  from setup_aborts_silently [of no_adapter_host mount "[Resolve, Tick, Click]"] a
  have 1: "setup_pc (setup_adapter no_adapter_host mount) = Returned"
    "deviceRef (run no_adapter_host [Resolve, Tick, Click]) = None"
    "frames (run no_adapter_host [Resolve, Tick, Click]) = []"
    by simp_all
  from setup_aborts_silently [of no_context_host mount "[Resolve, Resolve, Tick]"] c
  have 2: "setup_pc (setup_device no_context_host mount) = Returned"
    "pipelineRef (run no_context_host [Resolve, Resolve, Tick]) = None"
    "frames (run no_context_host [Resolve, Resolve, Tick]) = []"
    by simp_all
  from a c 1 2 show ?thesis by simp
qed

text \<open>
  Claim C8. If any of the five references is undefined, the draw effect changes nothing,
  so a change of the grid size changes the grid size and nothing else. As long as the
  guard does not pass, no frame has been drawn in the session. In a browser that provides
  everything, once setup has returned, a change of the grid size to \<open>v\<close> draws one
  frame, of 6 vertices and \<open>v * v\<close> instances.
\<close>

theorem draw_skipped_until_setup_completes:
  "(deviceRef a = None \<or> contextRef a = None \<or> pipelineRef a = None
      \<or> vertexBufferRef a = None \<or> verticesRef a = None \<longrightarrow>
      drawEffect a = a
      \<and> setGridSize v a = (if v = gridSize a then a else a\<lparr>gridSize := v\<rparr>))
   \<and> (\<not> ready (run h evs) \<longrightarrow> frames (run h evs) = [])
   \<and> (has_adapter h \<and> has_canvas h \<and> has_context h \<and> setup_pc (run h evs) = Returned
        \<and> v \<noteq> gridSize (run h evs) \<longrightarrow>
      gridSize (setGridSize v (run h evs)) = v
      \<and> frames (setGridSize v (run h evs)) = frames (run h evs) @ [(6, v * v)])"
proof (intro conjI impI)
  assume n: "deviceRef a = None \<or> contextRef a = None \<or> pipelineRef a = None
      \<or> vertexBufferRef a = None \<or> verticesRef a = None"
  then have r: "\<not> ready a" by (auto simp: ready_def)
  then show "drawEffect a = a" by (rule drawEffect_not_ready)
  from r have "\<not> ready (a\<lparr>gridSize := v\<rparr>)" by (simp add: ready_gridSize)
  then show "setGridSize v a = (if v = gridSize a then a else a\<lparr>gridSize := v\<rparr>)"
    by (simp add: setGridSize_def drawEffect_not_ready)
next
  assume "\<not> ready (run h evs)"
  then show "frames (run h evs) = []"
    by (rule not_ready_frames [OF session_inv_run])
next
  assume h: "has_adapter h \<and> has_canvas h \<and> has_context h \<and> setup_pc (run h evs) = Returned
        \<and> v \<noteq> gridSize (run h evs)"
  show "gridSize (setGridSize v (run h evs)) = v"
    by (rule gridSize_setGridSize)
  from h have "ready (run h evs)" by (simp add: full_returned_ready)
  with h show "frames (setGridSize v (run h evs)) = frames (run h evs) @ [(6, v * v)]"
    by (simp add: frames_setGridSize [OF session_inv_run])
qed

text \<open>
  The draw effect at mounting and at a tick before setup completes is skipped; a change to
  5 after setup draws 25 instances.
\<close>

theorem draw_skipped_until_setup_completes_witness:
  "deviceRef mount = None \<and> drawEffect mount = mount
   \<and> setGridSize 5 mount = mount\<lparr>gridSize := 5\<rparr>
   \<and> \<not> ready (run full_host [Resolve, Tick]) \<and> frames (run full_host [Resolve, Tick]) = []
   \<and> has_adapter full_host \<and> has_canvas full_host \<and> has_context full_host
   \<and> setup_pc (run full_host [Resolve, Resolve]) = Returned
   \<and> 5 \<noteq> gridSize (run full_host [Resolve, Resolve])
   \<and> frames (setGridSize 5 (run full_host [Resolve, Resolve])) = [(6, 25)]"
proof -
  have m: "deviceRef mount = None" "gridSize mount = 4"
    by (simp_all add: mount_eq initial_def)
  have r: "\<not> ready (run full_host [Resolve, Tick])"
    by (simp add: run_def mount_eq initial_def setup_resume_def setup_adapter_def
        full_host_simps timer_callback_def setGridSize_def drawEffect_def ready_def)
  have s: "setup_pc (run full_host [Resolve, Resolve]) = Returned"
    "gridSize (run full_host [Resolve, Resolve]) = 4"
    "frames (run full_host [Resolve, Resolve]) = []"
    by (simp_all add: run_full_setup frames_def draw_calls_def)
  from draw_skipped_until_setup_completes [of mount 5 full_host "[Resolve, Tick]"] m r
  have 1: "drawEffect mount = mount" "setGridSize 5 mount = mount\<lparr>gridSize := 5\<rparr>"
    "frames (run full_host [Resolve, Tick]) = []"
    by simp_all
  from draw_skipped_until_setup_completes [of mount 5 full_host "[Resolve, Resolve]"] s
  have 2: "frames (setGridSize 5 (run full_host [Resolve, Resolve])) = [(6, 25)]"
    by (simp add: full_host_simps)
  from m r s 1 2 show ?thesis by (simp add: full_host_simps)
qed




text \<open>
  Claim C10. With an adapter but without the canvas element or without its context, the
  last segment of setup stores the device and returns: the device reference is defined
  and holds a device on which nothing has been created, while context, pipeline, vertex
  buffer and vertex array are undefined. This is the state of the references in every
  state of the session after setup has returned.
\<close>

theorem setup_abort_leaves_device_defined:
  "has_adapter h \<and> (\<not> has_canvas h \<or> \<not> has_context h) \<longrightarrow>
     setup_device h a = a\<lparr>deviceRef := Some new_device, setup_pc := Returned\<rparr>
     \<and> (setup_pc (run h evs) = Returned \<longrightarrow>
          deviceRef (run h evs) = Some new_device \<and> contextRef (run h evs) = None
          \<and> pipelineRef (run h evs) = None \<and> vertexBufferRef (run h evs) = None
          \<and> verticesRef (run h evs) = None)"
proof (intro impI conjI)
  assume h: "has_adapter h \<and> (\<not> has_canvas h \<or> \<not> has_context h)"
  then have n: "\<not> has_canvas h \<or> \<not> has_context h" by simp
  show "setup_device h a = a\<lparr>deviceRef := Some new_device, setup_pc := Returned\<rparr>"
    by (rule setup_device_abort [OF n])
  assume "setup_pc (run h evs) = Returned"
  with session_inv_run [of h evs] h
  show "deviceRef (run h evs) = Some new_device" "contextRef (run h evs) = None"
    "pipelineRef (run h evs) = None" "vertexBufferRef (run h evs) = None"
    "verticesRef (run h evs) = None"
    by (auto simp: session_inv_def)
qed

text \<open>
  A session without the canvas element, after both promises have resolved.
\<close>

theorem setup_abort_leaves_device_defined_witness:
  "has_adapter no_canvas_host \<and> \<not> has_canvas no_canvas_host
   \<and> setup_pc (run no_canvas_host [Resolve, Resolve]) = Returned
   \<and> deviceRef (run no_canvas_host [Resolve, Resolve]) = Some new_device
   \<and> contextRef (run no_canvas_host [Resolve, Resolve]) = None
   \<and> pipelineRef (run no_canvas_host [Resolve, Resolve]) = None
   \<and> vertexBufferRef (run no_canvas_host [Resolve, Resolve]) = None"
proof -
  have c: "has_adapter no_canvas_host" "\<not> has_canvas no_canvas_host"
    by (simp_all add: no_canvas_host_def full_host_def)
  have r: "setup_pc (run no_canvas_host [Resolve, Resolve]) = Returned"
    by (simp add: run_no_canvas)
  from setup_abort_leaves_device_defined [of no_canvas_host mount "[Resolve, Resolve]"] c r
  show ?thesis by simp
qed

end
